theory Spec2Isabelle
  imports Complex_Main "HOL-Library.Sublist" "HOL-Library.Word"
begin

section \<open>Errors raised by the service\<close>

text \<open>
  Every exception the three source files can raise is a constructor of one datatype; a
  function that may raise returns \<open>py_error + 'a\<close>, with \<open>Inl\<close> for the exception.
  \<^item> \<open>EngineLoadError l\<close>: the constructor call \<open>KokoroEngine(lang_code=l)\<close> raised.
  \<^item> \<open>HTTP_422 ps\<close>: the validation of the query parameters \<open>ps\<close> failed.
  \<^item> \<open>KeyError m\<close>: raised by \<open>TTSFactory.create\<close> with message \<open>m\<close>.
  \<^item> \<open>TypeError k\<close>: a call got the keyword argument \<open>k\<close> twice.
\<close>

datatype py_error =
    EngineLoadError string
  | HTTP_422 "string list"
  | KeyError string
  | TypeError string

section \<open>Engine pool: \<open>ENGINES\<close>, \<open>get_engine\<close>, \<open>lifespan\<close> (src/app.py)\<close>

text \<open>
  An engine object is identified by \<open>eid\<close>, the index of the constructor call that made
  it, so two objects are the same instance exactly when they are equal.
\<close>

record engine =
  eid :: nat
  lang_code :: string

text \<open>
  The module-level state: the dictionary \<open>ENGINES\<close> and, as a ghost field, the log of all
  calls of the engine constructor with their outcome (\<open>True\<close>: an engine was built).
\<close>

record world =
  ENGINES :: "string \<rightharpoonup> engine"
  ctor_calls :: "(string \<times> bool) list"

definition world0 :: world where
  "world0 = \<lparr>ENGINES = Map.empty, ctor_calls = []\<rparr>"

text \<open>
  \<open>KokoroEngine\<close> is a class of the RealtimeTTS library. Whether loading a model works is
  not decided by this repository: \<open>ok l n\<close> says whether the constructor succeeds for
  language \<open>l\<close> when it is the \<open>n\<close>-th constructor call of the process.
\<close>

type_synonym loader = "string \<Rightarrow> nat \<Rightarrow> bool"

definition KokoroEngine :: "loader \<Rightarrow> string \<Rightarrow> world \<Rightarrow> (py_error + engine) \<times> world" where
  "KokoroEngine ok l w =
     (let n = length (ctor_calls w) in
      if ok l n
      then (Inr \<lparr>eid = n, lang_code = l\<rparr>, w\<lparr>ctor_calls := ctor_calls w @ [(l, True)]\<rparr>)
      else (Inl (EngineLoadError l), w\<lparr>ctor_calls := ctor_calls w @ [(l, False)]\<rparr>))"

text \<open>
  \<open>get_engine\<close>: the unlocked test, then under \<open>ENGINE_LOCK\<close> the second test, the
  construction and the store. The assignment \<open>ENGINES[lang_code] = KokoroEngine(...)\<close>
  evaluates its right-hand side first, so a raising constructor leaves the dictionary as
  it was. Calls are modelled one after the other, so the lock itself has no effect.
\<close>

definition get_engine :: "loader \<Rightarrow> string \<Rightarrow> world \<Rightarrow> (py_error + engine) \<times> world" where
  "get_engine ok l w =
     (case ENGINES w l of
        Some e \<Rightarrow> (Inr e, w)
      | None \<Rightarrow>
          (case ENGINES w l of
             None \<Rightarrow>
               (case KokoroEngine ok l w of
                  (Inl err, w') \<Rightarrow> (Inl err, w')
                | (Inr e, w') \<Rightarrow> (Inr e, w'\<lparr>ENGINES := (ENGINES w')(l \<mapsto> e)\<rparr>))
           | Some e \<Rightarrow> (Inr e, w)))"

text \<open>A sequence of requests, each of which asks the pool for its language.\<close>

primrec serve :: "loader \<Rightarrow> string list \<Rightarrow> world \<Rightarrow> world" where
  "serve ok [] w = w"
| "serve ok (l # ls) w = serve ok ls (snd (get_engine ok l w))"

definition constructions :: "string \<Rightarrow> world \<Rightarrow> nat" where
  "constructions l w = length (filter (\<lambda>c. c = (l, True)) (ctor_calls w))"

text \<open>
  The invariant of the pool: a language has at most one successful construction, and none
  while it has no entry in the dictionary.
\<close>

definition pool_inv :: "world \<Rightarrow> bool" where
  "pool_inv w = (\<forall>l. constructions l w \<le> (if l \<in> dom (ENGINES w) then 1 else 0))"

definition PRELOAD_LANGS :: "string list" where
  "PRELOAD_LANGS = [''a'', ''b'']"

text \<open>
  The body of \<open>lifespan\<close> before its \<open>yield\<close> (the loop over \<open>PRELOAD_LANGS\<close>) and after
  it (\<open>ENGINES.clear()\<close>).
\<close>

fun preload :: "loader \<Rightarrow> string list \<Rightarrow> world \<Rightarrow> (py_error + unit) \<times> world" where
  "preload ok [] w = (Inr (), w)"
| "preload ok (l # ls) w =
     (if l \<notin> dom (ENGINES w)
      then (case KokoroEngine ok l w of
              (Inl err, w') \<Rightarrow> (Inl err, w')
            | (Inr e, w') \<Rightarrow> preload ok ls (w'\<lparr>ENGINES := (ENGINES w')(l \<mapsto> e)\<rparr>))
      else preload ok ls w)"

definition lifespan_enter :: "loader \<Rightarrow> world \<Rightarrow> (py_error + unit) \<times> world" where
  "lifespan_enter ok w = preload ok PRELOAD_LANGS w"

definition lifespan_exit :: "world \<Rightarrow> world" where
  "lifespan_exit w = w\<lparr>ENGINES := Map.empty\<rparr>"

text \<open>
  The application object. \<open>FastAPI(title=...)\<close> takes the lifespan context manager as
  its keyword argument \<open>lifespan\<close>, which defaults to \<open>None\<close>; the framework runs exactly
  the context manager stored there around the serving of requests. The module defines
  one candidate, the function \<open>lifespan\<close>.
\<close>

datatype hook = Lifespan

record fastapi =
  title :: string
  lifespan_arg :: "hook option"

definition FastAPI :: "string \<Rightarrow> fastapi" where
  "FastAPI t = \<lparr>title = t, lifespan_arg = None\<rparr>"

definition app :: fastapi where
  "app = FastAPI ''RealtimeTTS + Kokoro (Preload, Multi-language)''"

definition process_startup :: "loader \<Rightarrow> fastapi \<Rightarrow> world \<Rightarrow> (py_error + unit) \<times> world" where
  "process_startup ok a w =
     (case lifespan_arg a of None \<Rightarrow> (Inr (), w) | Some Lifespan \<Rightarrow> lifespan_enter ok w)"

definition process_shutdown :: "fastapi \<Rightarrow> world \<Rightarrow> world" where
  "process_shutdown a w =
     (case lifespan_arg a of None \<Rightarrow> w | Some Lifespan \<Rightarrow> lifespan_exit w)"

section \<open>Streaming bridge: \<open>stream_tts_bytes\<close> (src/app.py)\<close>

type_synonym bytes = "8 word list"

text \<open>
  The synthesis session calls \<open>on_chunk(b)\<close> and \<open>on_stop()\<close>, possibly from another thread;
  the generator runs the \<open>while True\<close> loop. A schedule is the order in which the atomic
  steps of the two sides happen.
\<close>

datatype event = OnChunk bytes | OnStop

datatype action = Producer event | Consumer

text \<open>
  Where the generator stands: before \<open>done.is_set()\<close>, before \<open>q.empty()\<close> (reached only
  when the first test was true, as \<open>and\<close> short-circuits), at
  \<open>await asyncio.wait_for(q.get(), timeout=0.1)\<close>, or after \<open>break\<close>.
\<close>

datatype place = CheckDone | CheckEmpty | Get | Finished

text \<open>
  \<open>queue\<close> is the source's \<open>q\<close> and \<open>done_ev\<close> its \<open>done\<close>; \<open>yielded\<close> collects what the
  generator has yielded so far.
\<close>

record bridge =
  queue :: "bytes list"
  done_ev :: bool
  yielded :: "bytes list"
  pc :: place

definition bridge0 :: bridge where
  "bridge0 = \<lparr>queue = [], done_ev = False, yielded = [], pc = CheckDone\<rparr>"

fun producer :: "event \<Rightarrow> bridge \<Rightarrow> bridge" where
  "producer (OnChunk b) s = s\<lparr>queue := queue s @ [b]\<rparr>"
| "producer OnStop s = s\<lparr>done_ev := True\<rparr>"

text \<open>
  One step of the loop. At \<open>Get\<close> the step takes the head of the queue and yields it, or,
  with the queue empty, is the \<open>TimeoutError\<close> that leads back to the test.
\<close>

definition consumer :: "bridge \<Rightarrow> bridge" where
  "consumer s =
     (case pc s of
        CheckDone \<Rightarrow> if done_ev s then s\<lparr>pc := CheckEmpty\<rparr> else s\<lparr>pc := Get\<rparr>
      | CheckEmpty \<Rightarrow> if queue s = [] then s\<lparr>pc := Finished\<rparr> else s\<lparr>pc := Get\<rparr>
      | Get \<Rightarrow>
          (case queue s of
             [] \<Rightarrow> s\<lparr>pc := CheckDone\<rparr>
           | chunk # rest \<Rightarrow> s\<lparr>queue := rest, yielded := yielded s @ [chunk], pc := CheckDone\<rparr>)
      | Finished \<Rightarrow> s)"

fun step :: "action \<Rightarrow> bridge \<Rightarrow> bridge" where
  "step (Producer e) s = producer e s"
| "step Consumer s = consumer s"

primrec run :: "action list \<Rightarrow> bridge \<Rightarrow> bridge" where
  "run [] s = s"
| "run (a # as) s = run as (step a s)"

text \<open>The chunks the producer enqueues in a schedule, and the number of consumer steps.\<close>

fun chunks :: "action list \<Rightarrow> bytes list" where
  "chunks [] = []"
| "chunks (Producer (OnChunk b) # as) = b # chunks as"
| "chunks (_ # as) = chunks as"

definition polls :: "action list \<Rightarrow> nat" where
  "polls as = length (filter (\<lambda>a. a = Consumer) as)"

definition before_stop :: "action list \<Rightarrow> action list" where
  "before_stop as = takeWhile (\<lambda>a. a \<noteq> Producer OnStop) as"


text \<open>
  The generator object: creating it runs nothing. Driving it first awaits \<open>get_engine\<close>
  and then runs the loop against the session. \<open>text\<close>, \<open>voice\<close> and \<open>speed\<close> go to the
  session of the library only, whose callbacks are the producer events of the schedule.
\<close>

datatype generator = StreamTtsBytes string string real string

fun stream_tts_bytes ::
  "loader \<Rightarrow> generator \<Rightarrow> action list \<Rightarrow> world \<Rightarrow> (py_error + bridge) \<times> world" where
  "stream_tts_bytes ok (StreamTtsBytes text voice speed lang) sched w =
     (case get_engine ok lang w of
        (Inl err, w') \<Rightarrow> (Inl err, w')
      | (Inr e, w') \<Rightarrow> (Inr (run sched bridge0), w'))"

text \<open>The generator reaches the second test and the end only with the signal set.\<close>

definition past_done :: "bridge \<Rightarrow> bool" where
  "past_done s = (pc s = CheckEmpty \<or> pc s = Finished \<longrightarrow> done_ev s)"

text \<open>
  A bound on the consumer steps the loop still needs once the signal is set: three per
  queued chunk (the two tests and the \<open>get\<close>), and what is left of the current round.
\<close>

definition remaining :: "bridge \<Rightarrow> nat" where
  "remaining s =
     (case pc s of
        CheckDone \<Rightarrow> 3 * length (queue s) + 2
      | CheckEmpty \<Rightarrow> 3 * length (queue s) + 1
      | Get \<Rightarrow> (if queue s = [] then 3 else 3 * length (queue s))
      | Finished \<Rightarrow> 0)"

text \<open>
  A request and two schedules for it: in the first a chunk is enqueued after the stop
  signal but before the loop has seen the empty queue; in the second the producer
  enqueues both chunks before it signals stop.
\<close>

definition ex_gen :: generator where
  "ex_gen = StreamTtsBytes ''hello'' ''af_heart'' 1.0 ''a''"

definition ex_sched :: "action list" where
  "ex_sched =
     [Producer (OnChunk [1, 2]), Consumer, Consumer] @ Producer OnStop #
     [Producer (OnChunk [3]), Consumer, Consumer, Consumer, Consumer, Consumer, Consumer,
      Consumer, Consumer, Consumer]"


definition ex_final :: bridge where
  "ex_final = \<lparr>queue = [], done_ev = True, yielded = [[1, 2], [3]], pc = Finished\<rparr>"

definition ex_world :: world where
  "ex_world = \<lparr>ENGINES = [''a'' \<mapsto> \<lparr>eid = 0, lang_code = ''a''\<rparr>], ctor_calls = [(''a'', True)]\<rparr>"




section \<open>HTTP endpoint: \<open>tts\<close> (src/app.py)\<close>


record float_query =
  fdflt :: "real option"
  ge :: "real option"
  le :: "real option"














section \<open>The module's last statement (src/app.py)\<close>

datatype effect = UvicornRun string nat

text \<open>
  Running the module as \<open>dunder_name\<close> (the value of the variable \<open>__name__\<close>): the
  condition compares the literal \<open>"__name__"\<close>, not the variable.
\<close>

definition module_main :: "string \<Rightarrow> effect list" where
  "module_main dunder_name =
     (if ''__name__'' = ''__main__'' then [UvicornRun ''0.0.0.0'' 1006] else [])"

section \<open>Plugin factory (src/factory.py) and the XTTS plugin (src/plugins/xtts_plugin.py)\<close>

datatype py_value = PyStr string | PyInt int | PyBool bool | PyNone

text \<open>Keyword arguments: a dictionary in insertion order.\<close>

type_synonym kwargs = "(string \<times> py_value) list"

text \<open>
  The registry of \<open>realtimetts_plugins\<close> maps a name to a plugin class; a class is named
  by its key. \<open>get_registry\<close> returns the dictionary, \<open>get_plugin_class\<close> looks a name up
  and returns \<open>None\<close> for a name that is not registered, which is the case the test
  \<open>if not cls\<close> of \<open>create\<close> is written for.
\<close>

datatype plugin_class = PluginClass string

type_synonym registry = "(string \<times> plugin_class) list"

definition get_plugin_class :: "registry \<Rightarrow> string \<Rightarrow> plugin_class option" where
  "get_plugin_class reg name = map_of reg name"

definition engines :: "registry \<Rightarrow> string list" where
  "engines reg = map fst reg"

text \<open>
  \<open>str\<close> of a list of strings: the \<open>repr\<close> of each element, separated by a comma and a
  space, in brackets. \<open>rp\<close> is Python's \<open>repr\<close> on strings.
\<close>

fun join_reprs :: "(string \<Rightarrow> string) \<Rightarrow> string list \<Rightarrow> string" where
  "join_reprs rp [] = []"
| "join_reprs rp [x] = rp x"
| "join_reprs rp (x # xs) = rp x @ '', '' @ join_reprs rp xs"

definition str_of_list :: "(string \<Rightarrow> string) \<Rightarrow> string list \<Rightarrow> string" where
  "str_of_list rp xs = ''['' @ join_reprs rp xs @ '']''"

text \<open>
  The words between the name and the list in the message, as UTF-8 bytes; \<open>CHR 0x27\<close> is
  the single quote.
\<close>

definition not_exist_text :: string where
  "not_exist_text =
     [CHR 0x27] @ '' kh'' @ [CHR 0xC3, CHR 0xB4] @ ''ng t'' @ [CHR 0xE1, CHR 0xBB, CHR 0x93] @ ''n t'' @
     [CHR 0xE1, CHR 0xBA, CHR 0xA1] @ ''i. Engines: ''"

definition not_found_message :: "(string \<Rightarrow> string) \<Rightarrow> registry \<Rightarrow> string \<Rightarrow> string" where
  "not_found_message rp reg engine_name =
     ''Engine '' @ [CHR 0x27] @ engine_name @ not_exist_text @ str_of_list rp (engines reg)"

text \<open>
  \<open>TTSFactory.create\<close>, called as \<open>create(name, **kw)\<close>. The signature is
  \<open>create(engine_name, **engine_kwargs)\<close>: the name binds the parameter \<open>engine_name\<close>, so
  a keyword \<open>engine_name\<close> among \<open>kw\<close> gives that parameter a second value and the call
  raises \<open>TypeError\<close> before the body runs. The call \<open>cls(**engine_kwargs)\<close> runs the
  constructor of the registered class, which is outside the three source files: \<open>new\<close>
  stands for it.
\<close>

definition create ::
  "(string \<Rightarrow> string) \<Rightarrow> (plugin_class \<Rightarrow> kwargs \<Rightarrow> py_error + 'p) \<Rightarrow> registry \<Rightarrow>
   string \<Rightarrow> kwargs \<Rightarrow> py_error + 'p" where
  "create rp new reg engine_name engine_kwargs =
     (if ''engine_name'' \<in> set (map fst engine_kwargs)
      then Inl (TypeError ''engine_name'')
      else (case get_plugin_class reg engine_name of
              None \<Rightarrow> Inl (KeyError (not_found_message rp reg engine_name))
            | Some cls \<Rightarrow> new cls engine_kwargs))"

text \<open>
  A registry with two plugins, \<open>repr\<close> on strings without quotes or escapes, and a class
  constructor that keeps the class and the keyword arguments it was given.
\<close>

definition ex_registry :: registry where
  "ex_registry = [(''xtts'', PluginClass ''xtts''), (''kokoro'', PluginClass ''kokoro'')]"

definition ex_repr :: "string \<Rightarrow> string" where
  "ex_repr s = [CHR 0x27] @ s @ [CHR 0x27]"

definition ex_new :: "plugin_class \<Rightarrow> kwargs \<Rightarrow> py_error + plugin_class \<times> kwargs" where
  "ex_new c k = Inr (c, k)"

text \<open>
  A call \<open>f(k=v, ..., **m)\<close> raises \<open>TypeError\<close> when a key of \<open>m\<close> is also given
  explicitly; otherwise \<open>f\<close> receives the explicit keywords followed by the items of \<open>m\<close>.
\<close>

definition call_kwargs :: "kwargs \<Rightarrow> kwargs \<Rightarrow> py_error + kwargs" where
  "call_kwargs explicit star =
     (case find (\<lambda>k. k \<in> set (map fst explicit)) (map fst star) of
        Some k \<Rightarrow> Inl (TypeError k)
      | None \<Rightarrow> Inr (explicit @ star))"

record xtts_plugin =
  engine_kwargs :: kwargs

text \<open>
  \<open>XTTSPlugin.build_engine\<close>: \<open>dict(model="xtts", **self.engine_kwargs)\<close>, then
  \<open>CoquiEngine(**kwargs)\<close>; \<open>coqui\<close> stands for the constructor of the library's class.
\<close>

definition build_engine :: "(kwargs \<Rightarrow> py_error + 'e) \<Rightarrow> xtts_plugin \<Rightarrow> py_error + 'e" where
  "build_engine coqui self =
     (case call_kwargs [(''model'', PyStr ''xtts'')] (engine_kwargs self) of
        Inl err \<Rightarrow> Inl err
      | Inr kw \<Rightarrow> coqui kw)"

section \<open>Properties of the engine pool\<close>

lemma get_engine_hit: "ENGINES w l = Some e \<Longrightarrow> get_engine ok l w = (Inr e, w)"
  by (simp add: get_engine_def)

lemma get_engine_stores:
  "get_engine ok l w = (Inr e, w1) \<Longrightarrow> ENGINES w1 l = Some e"
  by (auto simp: get_engine_def KokoroEngine_def Let_def split: option.splits if_splits)

lemma get_engine_keeps:
  "ENGINES w l = Some e \<Longrightarrow> ENGINES (snd (get_engine ok k w)) l = Some e"
  by (auto simp: get_engine_def KokoroEngine_def Let_def split: option.splits if_splits)

lemma serve_keeps: "ENGINES w l = Some e \<Longrightarrow> ENGINES (serve ok ls w) l = Some e"
  by (induction ls arbitrary: w) (simp_all add: get_engine_keeps)

lemma pool_inv_world0: "pool_inv world0"
  by (simp add: pool_inv_def world0_def constructions_def)

text \<open>The state after a call of \<open>get_engine\<close>, by cases.\<close>

lemma get_engine_world:
  "snd (get_engine ok l w) =
     (case ENGINES w l of
        Some e \<Rightarrow> w
      | None \<Rightarrow>
          if ok l (length (ctor_calls w))
          then w\<lparr>ctor_calls := ctor_calls w @ [(l, True)],
                 ENGINES := (ENGINES w)(l \<mapsto> \<lparr>eid = length (ctor_calls w), lang_code = l\<rparr>)\<rparr>
          else w\<lparr>ctor_calls := ctor_calls w @ [(l, False)]\<rparr>)"
  by (simp add: get_engine_def KokoroEngine_def Let_def split: option.splits)

lemma pool_inv_get_engine:
  assumes "pool_inv w"
  shows "pool_inv (snd (get_engine ok l w))"
proof (cases "ENGINES w l")
  case (Some e)
  then show ?thesis using assms by (simp add: get_engine_world)
next
  case None
  show ?thesis
  proof (cases "ok l (length (ctor_calls w))")
    case False
    with None assms show ?thesis
      by (simp add: get_engine_world pool_inv_def constructions_def)
  next
    case True
    from assms None have z: "constructions l w = 0"
      unfolding pool_inv_def by (metis domIff le_zero_eq)
    show ?thesis
      unfolding pool_inv_def
    proof
      fix k
      show "constructions k (snd (get_engine ok l w))
              \<le> (if k \<in> dom (ENGINES (snd (get_engine ok l w))) then 1 else 0)"
      proof (cases "k = l")
        case True
        with z None \<open>ok l (length (ctor_calls w))\<close> show ?thesis
          by (simp add: get_engine_world constructions_def)
      next
        case False
        from assms have "constructions k w \<le> (if k \<in> dom (ENGINES w) then 1 else 0)"
          unfolding pool_inv_def by blast
        with False None \<open>ok l (length (ctor_calls w))\<close> show ?thesis
          by (simp add: get_engine_world constructions_def)
      qed
    qed
  qed
qed

lemma pool_inv_serve: "pool_inv w \<Longrightarrow> pool_inv (serve ok ls w)"
  by (induction ls arbitrary: w) (simp_all add: pool_inv_get_engine)

lemma pool_inv_le1:
  assumes "pool_inv w"
  shows "constructions l w \<le> 1"
proof -
  from assms have "constructions l w \<le> (if l \<in> dom (ENGINES w) then 1 else 0)"
    unfolding pool_inv_def by blast
  then show ?thesis by (simp split: if_splits)
qed

text \<open>
  Claim C3. Once a call of \<open>get_engine\<close> for a language has returned an engine, a later
  call for the same language, also after requests for any languages in between, returns
  the identical instance and leaves the whole state as it was, so it constructs nothing.
  Over any sequence of requests from the start of the process, a language has at most
  one successful construction.
\<close>

theorem get_engine_constructs_once:
  "(get_engine ok l w = (Inr e, w1) \<longrightarrow>
      get_engine ok l (serve ok ls w1) = (Inr e, serve ok ls w1)) \<and>
   constructions l (serve ok ls world0) \<le> 1"
proof (intro conjI impI)
  assume "get_engine ok l w = (Inr e, w1)"
  then have "ENGINES w1 l = Some e" by (rule get_engine_stores)
  then have "ENGINES (serve ok ls w1) l = Some e" by (rule serve_keeps)
  then show "get_engine ok l (serve ok ls w1) = (Inr e, serve ok ls w1)"
    by (rule get_engine_hit)
next
  have "pool_inv (serve ok ls world0)"
    using pool_inv_world0 by (rule pool_inv_serve)
  then show "constructions l (serve ok ls world0) \<le> 1" by (rule pool_inv_le1)
qed


theorem get_engine_constructs_once_witness:
  "get_engine (\<lambda>l n. True) ''a'' world0 =
     (Inr \<lparr>eid = 0, lang_code = ''a''\<rparr>,
      \<lparr>ENGINES = [''a'' \<mapsto> \<lparr>eid = 0, lang_code = ''a''\<rparr>], ctor_calls = [(''a'', True)]\<rparr>) \<and>
   fst (get_engine (\<lambda>l n. True) ''a''
          (serve (\<lambda>l n. True) [''b'', ''a'']
             \<lparr>ENGINES = [''a'' \<mapsto> \<lparr>eid = 0, lang_code = ''a''\<rparr>], ctor_calls = [(''a'', True)]\<rparr>))
     = Inr \<lparr>eid = 0, lang_code = ''a''\<rparr> \<and>
   ctor_calls (snd (get_engine (\<lambda>l n. True) ''a''
          (serve (\<lambda>l n. True) [''b'', ''a'']
             \<lparr>ENGINES = [''a'' \<mapsto> \<lparr>eid = 0, lang_code = ''a''\<rparr>], ctor_calls = [(''a'', True)]\<rparr>)))
     = [(''a'', True), (''b'', True)]"
proof -
  let ?ok = "\<lambda>(l::string) (n::nat). True"
  let ?e = "\<lparr>eid = 0, lang_code = ''a''\<rparr>"
  let ?w1 = "\<lparr>ENGINES = [''a'' \<mapsto> ?e], ctor_calls = [(''a'', True)]\<rparr>"
  have h: "get_engine ?ok ''a'' world0 = (Inr ?e, ?w1)"
    by (simp add: get_engine_def KokoroEngine_def world0_def)
  have s: "ctor_calls (serve ?ok [''b'', ''a''] ?w1) = [(''a'', True), (''b'', True)]"
    by (simp add: get_engine_def KokoroEngine_def)
  have "get_engine ?ok ''a'' (serve ?ok [''b'', ''a''] ?w1) = (Inr ?e, serve ?ok [''b'', ''a''] ?w1)"
    using get_engine_constructs_once [of ?ok "''a''" world0 ?e ?w1 "[''b'', ''a'']"] h by blast
  with h s show ?thesis by simp
qed

text \<open>
  Claim C4. When the constructor raises for a language that has no entry, \<open>get_engine\<close>
  raises the same error, the dictionary is unchanged (the failed call is only logged), and
  the next call of \<open>get_engine\<close> for that language calls the constructor again.
\<close>

theorem failed_construction_not_cached:
  assumes "ENGINES w l = None" and "\<not> ok l (length (ctor_calls w))"
  shows "fst (get_engine ok l w) = Inl (EngineLoadError l) \<and>
         ENGINES (snd (get_engine ok l w)) = ENGINES w \<and>
         ctor_calls (snd (get_engine ok l w)) = ctor_calls w @ [(l, False)] \<and>
         ctor_calls (snd (get_engine ok l (snd (get_engine ok l w)))) =
           ctor_calls w @ [(l, False), (l, ok l (Suc (length (ctor_calls w))))]"
proof -
  let ?w' = "w\<lparr>ctor_calls := ctor_calls w @ [(l, False)]\<rparr>"
  from assms have r: "get_engine ok l w = (Inl (EngineLoadError l), ?w')"
    by (simp add: get_engine_def KokoroEngine_def Let_def)
  from assms have n: "ENGINES ?w' l = None" by simp
  have "ctor_calls (snd (get_engine ok l ?w')) =
          ctor_calls ?w' @ [(l, ok l (length (ctor_calls ?w')))]"
    using n by (simp add: get_engine_world)
  with r show ?thesis by simp
qed

theorem failed_construction_not_cached_witness:
  "ENGINES world0 ''z'' = None \<and> \<not> (\<lambda>l n. 0 < n) ''z'' (length (ctor_calls world0)) \<and>
   fst (get_engine (\<lambda>l n. 0 < n) ''z'' world0) = Inl (EngineLoadError ''z'') \<and>
   ENGINES (snd (get_engine (\<lambda>l n. 0 < n) ''z'' world0)) = Map.empty \<and>
   ctor_calls (snd (get_engine (\<lambda>l n. 0 < n) ''z'' (snd (get_engine (\<lambda>l n. 0 < n) ''z'' world0)))) =
     [(''z'', False), (''z'', True)]"
proof -
  let ?ok = "\<lambda>(l::string) (n::nat). 0 < n"
  have a: "ENGINES world0 ''z'' = None" by (simp add: world0_def)
  have b: "\<not> ?ok ''z'' (length (ctor_calls world0))" by (simp add: world0_def)
  have c: "ctor_calls world0 = []" "ENGINES world0 = Map.empty" by (simp_all add: world0_def)
  from failed_construction_not_cached [of world0 "''z''" ?ok, OF a b] a b
  show ?thesis unfolding c by simp
qed

text \<open>
  What \<open>lifespan\<close> would do if the framework ran it: with both constructions
  succeeding, entering it stores the engines of \<open>a\<close> and \<open>b\<close>, and leaving it empties the
  dictionary.
\<close>

lemma lifespan_enter_preloads:
  assumes "ok ''a'' 0" and "ok ''b'' (Suc 0)"
  shows "lifespan_enter ok world0 =
     (Inr (), \<lparr>ENGINES = [''a'' \<mapsto> \<lparr>eid = 0, lang_code = ''a''\<rparr>,
                           ''b'' \<mapsto> \<lparr>eid = Suc 0, lang_code = ''b''\<rparr>],
               ctor_calls = [(''a'', True), (''b'', True)]\<rparr>)"
  using assms by (simp add: lifespan_enter_def PRELOAD_LANGS_def KokoroEngine_def world0_def)

lemma lifespan_exit_clears: "ENGINES (lifespan_exit w) = Map.empty"
  by (simp add: lifespan_exit_def)

text \<open>
  Claim C5. The claim says that startup constructs the engines of \<open>a\<close> and \<open>b\<close> before any
  request and that shutdown empties the pool. The application object is built without
  its \<open>lifespan\<close> argument, so the function \<open>lifespan\<close> is never run: startup leaves the
  pool empty, the first request for \<open>a\<close> calls the constructor, and shutdown leaves the
  pool as it is.
\<close>

theorem startup_does_not_preload:
  "process_startup ok app world0 = (Inr (), world0) \<and>
   dom (ENGINES (snd (process_startup ok app world0))) = {} \<and>
   ctor_calls (snd (get_engine ok ''a'' (snd (process_startup ok app world0)))) =
     [(''a'', ok ''a'' 0)] \<and>
   process_shutdown app w = w"
proof -
  have s: "process_startup ok app world0 = (Inr (), world0)"
    by (simp add: process_startup_def app_def FastAPI_def)
  have d: "process_shutdown app w = w"
    by (simp add: process_shutdown_def app_def FastAPI_def)
  have g: "ctor_calls (snd (get_engine ok ''a'' world0)) = [(''a'', ok ''a'' 0)]"
    by (simp add: get_engine_world world0_def)
  from s d g show ?thesis by (simp add: world0_def)
qed

section \<open>Properties of the endpoint\<close>











text \<open>
  Claim C9. Whatever the value of \<open>__name__\<close>, the last statement of the module runs
  nothing: its condition compares two different string literals, so the server is never
  started from there.
\<close>

theorem main_guard_never_runs: "module_main dunder_name = []"
  by (simp add: module_main_def)

section \<open>Properties of the factory and of the XTTS plugin\<close>

lemma get_plugin_class_None: "(get_plugin_class reg name = None) = (name \<notin> set (engines reg))"
  by (simp add: get_plugin_class_def engines_def map_of_eq_None_iff)

text \<open>
  Claim C8, as stated, for every keyword arguments: for a name that is not registered
  \<open>create\<close> raises the not-found error, and for a registered name it returns the instance
  built by the registered class. It fails for keyword arguments with the key
  \<open>engine_name\<close>: the call raises \<open>TypeError\<close>, whether the name is registered or not.
\<close>

theorem create_engine_name_keyword_counterexample:
  "create ex_repr ex_new ex_registry ''doesnotexist'' [(''engine_name'', PyStr ''x'')] =
     Inl (TypeError ''engine_name'') \<and>
   create ex_repr ex_new ex_registry ''doesnotexist'' [(''engine_name'', PyStr ''x'')] \<noteq>
     Inl (KeyError (not_found_message ex_repr ex_registry ''doesnotexist'')) \<and>
   get_plugin_class ex_registry ''xtts'' = Some (PluginClass ''xtts'') \<and>
   create ex_repr ex_new ex_registry ''xtts'' [(''engine_name'', PyStr ''x'')] =
     Inl (TypeError ''engine_name'') \<and>
   create ex_repr ex_new ex_registry ''xtts'' [(''engine_name'', PyStr ''x'')] \<noteq>
     ex_new (PluginClass ''xtts'') [(''engine_name'', PyStr ''x'')]"
  by (simp add: create_def ex_new_def ex_registry_def get_plugin_class_def)

text \<open>
  Claim C8, amended. For keyword arguments without the key \<open>engine_name\<close>: for a name
  that is not registered, \<open>create\<close> raises \<open>KeyError\<close> with a message that ends with the
  list of the registered names; for a registered name it returns what the constructor of
  the registered class returns for the given keyword arguments. With the key
  \<open>engine_name\<close> among the keyword arguments the call raises \<open>TypeError\<close>.
\<close>

theorem create_unknown_or_registered:
  "(''engine_name'' \<notin> fst ` set kw \<and> name \<notin> set (engines reg) \<longrightarrow>
      create rp new reg name kw =
        Inl (KeyError (''Engine '' @ [CHR 0x27] @ name @ not_exist_text @
                       str_of_list rp (engines reg)))) \<and>
   (\<forall>c. ''engine_name'' \<notin> fst ` set kw \<and> get_plugin_class reg name = Some c \<longrightarrow>
      create rp new reg name kw = new c kw) \<and>
   (''engine_name'' \<in> fst ` set kw \<longrightarrow>
      create rp new reg name kw = Inl (TypeError ''engine_name''))"
proof (intro conjI impI allI)
  assume a: "''engine_name'' \<notin> fst ` set kw \<and> name \<notin> set (engines reg)"
  then have "get_plugin_class reg name = None" by (simp add: get_plugin_class_None)
  with a show "create rp new reg name kw =
        Inl (KeyError (''Engine '' @ [CHR 0x27] @ name @ not_exist_text @
                       str_of_list rp (engines reg)))"
    by (simp add: create_def not_found_message_def)
next
  fix c
  assume "''engine_name'' \<notin> fst ` set kw \<and> get_plugin_class reg name = Some c"
  then show "create rp new reg name kw = new c kw" by (simp add: create_def)
next
  assume "''engine_name'' \<in> fst ` set kw"
  then show "create rp new reg name kw = Inl (TypeError ''engine_name'')"
    by (simp add: create_def)
qed

theorem create_unknown_or_registered_witness:
  "create ex_repr ex_new ex_registry ''doesnotexist'' [] =
     Inl (KeyError (''Engine '' @ [CHR 0x27] @ ''doesnotexist'' @ not_exist_text @
                    ''['' @ [CHR 0x27] @ ''xtts'' @ [CHR 0x27] @ '', '' @
                    [CHR 0x27] @ ''kokoro'' @ [CHR 0x27] @ '']'')) \<and>
   create ex_repr ex_new ex_registry ''xtts'' [(''language'', PyStr ''en'')] =
     Inr (PluginClass ''xtts'', [(''language'', PyStr ''en'')]) \<and>
   create ex_repr ex_new ex_registry ''xtts''
     [(''language'', PyStr ''en''), (''engine_name'', PyStr ''kokoro'')] =
     Inl (TypeError ''engine_name'')"
  using create_unknown_or_registered [of "[]" "''doesnotexist''" ex_registry ex_repr ex_new]
        create_unknown_or_registered
          [of "[(''language'', PyStr ''en'')]" "''xtts''" ex_registry ex_repr ex_new]
        create_unknown_or_registered
          [of "[(''language'', PyStr ''en''), (''engine_name'', PyStr ''kokoro'')]" "''xtts''"
              ex_registry ex_repr ex_new]
  by (simp add: engines_def str_of_list_def get_plugin_class_def ex_registry_def ex_repr_def
        ex_new_def)

lemma find_key: "find (\<lambda>k. k = x) ks = (if x \<in> set ks then Some x else None)"
  by (induction ks) auto

lemma call_kwargs_single:
  "call_kwargs [(x, v)] star =
     (if x \<in> fst ` set star then Inl (TypeError x) else Inr ((x, v) # star))"
  by (simp add: call_kwargs_def find_key)

text \<open>
  Claim C10. With the key \<open>model\<close> among its \<open>engine_kwargs\<close>, \<open>build_engine\<close> raises
  \<open>TypeError\<close> for the doubled keyword; without it, the engine constructor is called
  with \<open>model="xtts"\<close> followed by the \<open>engine_kwargs\<close>.
\<close>

theorem build_engine_model_kwarg:
  "(''model'' \<in> fst ` set (engine_kwargs self) \<longrightarrow>
      build_engine coqui self = Inl (TypeError ''model'')) \<and>
   (''model'' \<notin> fst ` set (engine_kwargs self) \<longrightarrow>
      build_engine coqui self = coqui ((''model'', PyStr ''xtts'') # engine_kwargs self))"
  by (simp add: build_engine_def call_kwargs_single)

theorem build_engine_model_kwarg_witness:
  "build_engine Inr \<lparr>engine_kwargs = [(''device'', PyStr ''cpu''), (''model'', PyStr ''v2'')]\<rparr> =
     Inl (TypeError ''model'') \<and>
   build_engine Inr \<lparr>engine_kwargs = [(''device'', PyStr ''cpu'')]\<rparr> =
     Inr [(''model'', PyStr ''xtts''), (''device'', PyStr ''cpu'')]"
  using build_engine_model_kwarg [of "\<lparr>engine_kwargs = [(''device'', PyStr ''cpu''), (''model'', PyStr ''v2'')]\<rparr>" Inr]
        build_engine_model_kwarg [of "\<lparr>engine_kwargs = [(''device'', PyStr ''cpu'')]\<rparr>" Inr]
  by simp

section \<open>Properties of the streaming bridge\<close>

lemma run_append: "run (xs @ ys) s = run ys (run xs s)"
  by (induction xs arbitrary: s) simp_all

lemma run_snoc: "run (xs @ [a]) s = step a (run xs s)"
  by (simp add: run_append)

lemma chunks_append: "chunks (xs @ ys) = chunks xs @ chunks ys"
  by (induction xs rule: chunks.induct) simp_all

lemma consumer_fifo: "yielded (consumer s) @ queue (consumer s) = yielded s @ queue s"
  by (simp add: consumer_def split: place.splits list.splits)

lemma step_fifo: "yielded (step a s) @ queue (step a s) = yielded s @ queue s @ chunks [a]"
proof (cases a)
  case (Producer e)
  then show ?thesis by (cases e) simp_all
next
  case Consumer
  then show ?thesis by (simp add: consumer_fifo)
qed

lemma run_fifo: "yielded (run as s) @ queue (run as s) = yielded s @ queue s @ chunks as"
proof (induction as arbitrary: s)
  case Nil
  show ?case by simp
next
  case (Cons a as)
  have "yielded (run (a # as) s) @ queue (run (a # as) s)
          = yielded (step a s) @ queue (step a s) @ chunks as"
    using Cons.IH [of "step a s"] by simp
  also have "\<dots> = (yielded s @ queue s @ chunks [a]) @ chunks as"
    using step_fifo [of a s] by simp
  also have "\<dots> = yielded s @ queue s @ chunks (a # as)"
    using chunks_append [of "[a]" as] by simp
  finally show ?case .
qed

lemma run_fifo0: "yielded (run as bridge0) @ queue (run as bridge0) = chunks as"
  using run_fifo [of as bridge0] by (simp add: bridge0_def)

lemma consumer_done: "done_ev (consumer s) = done_ev s"
  by (simp add: consumer_def split: place.splits list.splits)

lemma step_done: "done_ev (step a s) = (done_ev s \<or> a = Producer OnStop)"
proof (cases a)
  case (Producer e)
  then show ?thesis by (cases e) simp_all
next
  case Consumer
  then show ?thesis by (simp add: consumer_done)
qed

lemma run_done: "done_ev (run as s) = (done_ev s \<or> Producer OnStop \<in> set as)"
  by (induction as arbitrary: s) (auto simp: step_done)

lemma producer_pc: "pc (producer e s) = pc s"
  by (cases e) simp_all

lemma step_past_done: "past_done s \<Longrightarrow> past_done (step a s)"
proof (cases a)
  case (Producer e)
  assume "past_done s"
  with Producer show ?thesis by (cases e) (simp_all add: past_done_def)
next
  case Consumer
  assume "past_done s"
  with Consumer show ?thesis
    by (cases "pc s") (auto simp: past_done_def consumer_def split: list.splits)
qed

lemma run_past_done: "past_done s \<Longrightarrow> past_done (run as s)"
  by (induction as arbitrary: s) (simp_all add: step_past_done)

lemma past_done0: "past_done bridge0"
  by (simp add: past_done_def bridge0_def)

lemma remaining_zero: "(remaining s = 0) = (pc s = Finished)"
  by (cases "pc s") (simp_all add: remaining_def)

lemma remaining_bound: "remaining s \<le> 3 * length (queue s) + 3"
  by (cases "pc s") (simp_all add: remaining_def)

lemma consumer_remaining:
  "done_ev s \<Longrightarrow> pc s \<noteq> Finished \<Longrightarrow> Suc (remaining (consumer s)) = remaining s"
  by (cases "pc s"; cases "queue s") (simp_all add: remaining_def consumer_def)

lemma producer_remaining:
  "remaining (producer e s) \<le> remaining s + 3 * length (chunks [Producer e])"
  by (cases e; cases "pc s") (simp_all add: remaining_def)

lemma consumer_finished: "pc s = Finished \<Longrightarrow> consumer s = s"
  by (simp add: consumer_def)

lemma step_finished: "pc s = Finished \<Longrightarrow> pc (step a s) = Finished"
  by (cases a) (simp_all add: producer_pc consumer_finished)

lemma run_finished: "pc s = Finished \<Longrightarrow> pc (run as s) = Finished"
  by (induction as arbitrary: s) (simp_all add: step_finished)

lemma polls_Cons: "polls (a # as) = (if a = Consumer then Suc (polls as) else polls as)"
  by (simp add: polls_def)

lemma polls_append: "polls (xs @ ys) = polls xs + polls ys"
  by (simp add: polls_def)

lemma run_terminates:
  "done_ev s \<Longrightarrow> remaining s + 3 * length (chunks as) \<le> polls as \<Longrightarrow> pc (run as s) = Finished"
proof (induction as arbitrary: s)
  case Nil
  then have "remaining s = 0" by (simp add: polls_def)
  then show ?case by (simp add: remaining_zero)
next
  case (Cons a as)
  show ?case
  proof (cases "pc s = Finished")
    case True
    then show ?thesis by (rule run_finished)
  next
    case False
    show ?thesis
    proof (cases a)
      case Consumer
      from Cons.prems(1) False have r: "Suc (remaining (consumer s)) = remaining s"
        by (rule consumer_remaining)
      from Cons.prems(2) Consumer have "remaining s + 3 * length (chunks as) \<le> Suc (polls as)"
        by (simp add: polls_Cons)
      with r have "remaining (consumer s) + 3 * length (chunks as) \<le> polls as" by arith
      moreover from Cons.prems(1) have "done_ev (consumer s)" by (simp add: consumer_done)
      ultimately have "pc (run as (consumer s)) = Finished" by (rule Cons.IH [rotated])
      with Consumer show ?thesis by simp
    next
      case (Producer e)
      have c: "chunks (a # as) = chunks [Producer e] @ chunks as"
        using chunks_append [of "[a]" as] Producer by simp
      from Cons.prems(2) Producer c
      have "remaining s + 3 * length (chunks [Producer e]) + 3 * length (chunks as) \<le> polls as"
        by (simp add: polls_Cons)
      with producer_remaining [of e s]
      have "remaining (producer e s) + 3 * length (chunks as) \<le> polls as" by arith
      moreover from Cons.prems(1) have "done_ev (producer e s)" by (cases e) simp_all
      ultimately have "pc (run as (producer e s)) = Finished" by (rule Cons.IH [rotated])
      with Producer show ?thesis by simp
    qed
  qed
qed

lemma step_to_finished:
  "pc (step a s) = Finished \<Longrightarrow> pc s \<noteq> Finished \<Longrightarrow> a = Consumer \<and> pc s = CheckEmpty \<and> queue s = []"
proof (cases a)
  case (Producer e)
  assume "pc (step a s) = Finished" "pc s \<noteq> Finished"
  with Producer show ?thesis by (simp add: producer_pc)
next
  case Consumer
  assume "pc (step a s) = Finished" "pc s \<noteq> Finished"
  with Consumer show ?thesis
    by (cases "pc s") (auto simp: consumer_def split: if_splits list.splits)
qed

lemma finished_stopped:
  assumes "pc (run as bridge0) = Finished"
  shows "Producer OnStop \<in> set as"
proof -
  have "past_done (run as bridge0)" using past_done0 by (rule run_past_done)
  with assms have "done_ev (run as bridge0)" by (simp add: past_done_def)
  then show ?thesis by (simp add: run_done bridge0_def)
qed




lemma step_finished_same: "pc s = Finished \<Longrightarrow> yielded (step a s) = yielded s"
proof (cases a)
  case (Producer e)
  then show ?thesis by (cases e) simp_all
next
  case Consumer
  assume "pc s = Finished"
  with Consumer show ?thesis by (simp add: consumer_finished)
qed


lemma before_stop_chunks_le: "length (chunks (before_stop as)) \<le> length (chunks as)"
proof -
  have "as = before_stop as @ dropWhile (\<lambda>a. a \<noteq> Producer OnStop) as"
    by (simp add: before_stop_def)
  then have "chunks as = chunks (before_stop as) @ chunks (dropWhile (\<lambda>a. a \<noteq> Producer OnStop) as)"
    using chunks_append by metis
  then show ?thesis by simp
qed

lemma before_stop_chunks_prefix: "prefix (chunks (before_stop as)) (chunks as)"
proof -
  have "as = before_stop as @ dropWhile (\<lambda>a. a \<noteq> Producer OnStop) as"
    by (simp add: before_stop_def)
  then have "chunks as = chunks (before_stop as) @ chunks (dropWhile (\<lambda>a. a \<noteq> Producer OnStop) as)"
    using chunks_append by metis
  then show ?thesis by (metis prefixI)
qed

lemma finished_drained_length:
  "pc (run as bridge0) = Finished \<Longrightarrow>
   length (chunks (before_stop as)) \<le> length (yielded (run as bridge0))"
proof (induction as rule: rev_induct)
  case Nil
  then show ?case by (simp add: bridge0_def)
next
  case (snoc a xs)
  let ?s = "run xs bridge0"
  from snoc.prems have f: "pc (step a ?s) = Finished" by (simp add: run_snoc)
  show ?case
  proof (cases "pc ?s = Finished")
    case True
    then have l: "length (chunks (before_stop xs)) \<le> length (yielded ?s)" by (rule snoc.IH)
    from True have "Producer OnStop \<in> set xs" by (rule finished_stopped)
    then have "before_stop (xs @ [a]) = before_stop xs"
      by (simp add: before_stop_def)
    with l True show ?thesis by (simp add: run_snoc step_finished_same)
  next
    case False
    with f have t: "a = Consumer \<and> pc ?s = CheckEmpty \<and> queue ?s = []"
      by (rule step_to_finished)
    with run_fifo0 [of xs] have y: "yielded ?s = chunks xs" by simp
    from t have "yielded (step a ?s) = yielded ?s" by (simp add: consumer_def)
    with y have y': "yielded (run (xs @ [a]) bridge0) = chunks xs" by (simp add: run_snoc)
    from t have "chunks (xs @ [a]) = chunks xs" by (simp add: chunks_append)
    with before_stop_chunks_le [of "xs @ [a]"] y' show ?thesis by simp
  qed
qed

lemma yielded_prefix: "prefix (yielded (run as bridge0)) (chunks as)"
  using run_fifo0 [of as] by (metis prefixI)

lemma finished_drained:
  assumes "pc (run as bridge0) = Finished"
  shows "prefix (chunks (before_stop as)) (yielded (run as bridge0))"
  using before_stop_chunks_prefix yielded_prefix finished_drained_length [OF assms]
  by (rule prefix_length_prefix)

lemma stream_result:
  "stream_tts_bytes ok g sched w = (Inr b, w') \<Longrightarrow> b = run sched bridge0"
  by (cases g) (auto split: prod.splits sum.splits)

text \<open>
  Claim C1. Once the stop signal is set, the loop ends after a bounded number of its own
  steps (three for every chunk queued or still enqueued, and three more), whatever the
  producer does meanwhile; in particular with the signal set and the queue empty it ends
  within three steps and does not wait for a chunk that never comes. A stream that has
  ended has seen the stop signal and has yielded every chunk that was enqueued before the
  signal.
\<close>

theorem stream_terminates_and_drains:
  "(done_ev s \<and> 3 * (length (queue s) + length (chunks as)) + 3 \<le> polls as
      \<longrightarrow> pc (run as s) = Finished) \<and>
   (stream_tts_bytes ok g (pre @ Producer OnStop # post) w = (Inr b, w') \<and>
    3 * length (chunks (pre @ post)) + 3 \<le> polls post
      \<longrightarrow> pc b = Finished) \<and>
   (stream_tts_bytes ok g sched w = (Inr b', w'') \<and> pc b' = Finished
      \<longrightarrow> Producer OnStop \<in> set sched \<and> prefix (chunks (before_stop sched)) (yielded b'))"
proof (intro conjI impI)
  assume a: "done_ev s \<and> 3 * (length (queue s) + length (chunks as)) + 3 \<le> polls as"
  then have p: "3 * length (queue s) + 3 * length (chunks as) + 3 \<le> polls as" by simp
  from a have d: "done_ev s" by simp
  from p remaining_bound [of s] have "remaining s + 3 * length (chunks as) \<le> polls as"
    by linarith
  with d show "pc (run as s) = Finished" by (rule run_terminates)
next
  assume a: "stream_tts_bytes ok g (pre @ Producer OnStop # post) w = (Inr b, w') \<and>
             3 * length (chunks (pre @ post)) + 3 \<le> polls post"
  let ?s = "step (Producer OnStop) (run pre bridge0)"
  from a have b: "b = run post ?s"
    using stream_result [of ok g "pre @ Producer OnStop # post" w b w']
    by (simp add: run_append)
  have d: "done_ev ?s" by simp
  have "length (yielded (run pre bridge0) @ queue (run pre bridge0)) = length (chunks pre)"
    by (simp only: run_fifo0)
  then have q: "length (queue ?s) \<le> length (chunks pre)" by simp
  from a have "3 * length (chunks pre) + 3 * length (chunks post) + 3 \<le> polls post"
    by (simp add: chunks_append)
  with q remaining_bound [of ?s] have "remaining ?s + 3 * length (chunks post) \<le> polls post"
    by linarith
  with d have "pc (run post ?s) = Finished" by (rule run_terminates)
  with b show "pc b = Finished" by simp
next
  assume a: "stream_tts_bytes ok g sched w = (Inr b', w'') \<and> pc b' = Finished"
  then have "b' = run sched bridge0" using stream_result [of ok g sched w b' w''] by simp
  with a show "Producer OnStop \<in> set sched"
    by (simp add: finished_stopped)
next
  assume a: "stream_tts_bytes ok g sched w = (Inr b', w'') \<and> pc b' = Finished"
  then have "b' = run sched bridge0" using stream_result [of ok g sched w b' w''] by simp
  with a show "prefix (chunks (before_stop sched)) (yielded b')"
    by (simp add: finished_drained)
qed


text \<open>The first example schedule, run by hand: both chunks are yielded, then the loop ends.\<close>

lemma ex_stream:
  "stream_tts_bytes (\<lambda>l n. True) ex_gen ex_sched world0 = (Inr ex_final, ex_world)"
  by (simp add: ex_gen_def ex_sched_def ex_final_def ex_world_def get_engine_def
        KokoroEngine_def world0_def bridge0_def consumer_def)

theorem stream_terminates_and_drains_witness:
  "done_ev \<lparr>queue = [[7]], done_ev = True, yielded = [], pc = Get\<rparr> \<and>
   pc (run [Consumer, Consumer, Consumer, Consumer, Consumer, Consumer]
         \<lparr>queue = [[7]], done_ev = True, yielded = [], pc = Get\<rparr>) = Finished \<and>
   stream_tts_bytes (\<lambda>l n. True) ex_gen ex_sched world0 = (Inr ex_final, ex_world) \<and>
   pc ex_final = Finished \<and>
   Producer OnStop \<in> set ex_sched \<and>
   chunks (before_stop ex_sched) = [[1, 2]] \<and>
   prefix [[1, 2]] (yielded ex_final)"
proof -
  have c: "chunks (before_stop ex_sched) = [[1, 2]]"
    by (simp add: ex_sched_def before_stop_def)
  have e: "ex_sched = [Producer (OnChunk [1, 2]), Consumer, Consumer] @ Producer OnStop #
     [Producer (OnChunk [3]), Consumer, Consumer, Consumer, Consumer, Consumer, Consumer,
      Consumer, Consumer, Consumer]"
    by (simp add: ex_sched_def)
  have p: "3 * length (chunks ([Producer (OnChunk [1, 2]), Consumer, Consumer] @
              [Producer (OnChunk [3]), Consumer, Consumer, Consumer, Consumer, Consumer,
               Consumer, Consumer, Consumer, Consumer])) + 3
           \<le> polls [Producer (OnChunk [3]), Consumer, Consumer, Consumer, Consumer, Consumer,
               Consumer, Consumer, Consumer, Consumer]"
    by (simp add: polls_def)
  have q: "3 * (length (queue \<lparr>queue = [[7]], done_ev = True, yielded = [], pc = Get\<rparr>) +
             length (chunks [Consumer, Consumer, Consumer, Consumer, Consumer, Consumer])) + 3
           \<le> polls [Consumer, Consumer, Consumer, Consumer, Consumer, Consumer]"
    by (simp add: polls_def)
  from stream_terminates_and_drains
         [of "\<lparr>queue = [[7]], done_ev = True, yielded = [], pc = Get\<rparr>"
             "[Consumer, Consumer, Consumer, Consumer, Consumer, Consumer]"
             "\<lambda>l n. True" ex_gen "[Producer (OnChunk [1, 2]), Consumer, Consumer]"
             "[Producer (OnChunk [3]), Consumer, Consumer, Consumer, Consumer, Consumer,
               Consumer, Consumer, Consumer, Consumer]"
             world0 ex_final ex_world ex_sched ex_final ex_world]
       ex_stream [unfolded e] ex_stream p q c
  show ?thesis by simp
qed



end
